theory Spec2Isabelle
  imports Main
begin

section \<open>Data model of doorman_ladon.go\<close>

text \<open>
  Principals are plain strings carrying a namespace prefix; a list of them is the Go
  slice type \<open>Principals\<close>.
\<close>

type_synonym Principals = "string list"

text \<open>
  Condition descriptors of a policy and the values of a request context are never
  inspected by the code of this file: they are handed to the policy library as they
  are. Both stay opaque.
\<close>

typedecl condition
typedecl ctx_value

datatype effect = allow | deny

text \<open>The policy type of the library (\<open>ladon.DefaultPolicy\<close>), as section 3 of the
  specification lists its attributes.\<close>

record DefaultPolicy =
  ID :: string
  Description :: string
  Subjects :: "string list"
  Resources :: "string list"
  Actions :: "string list"
  Effect :: effect
  Conditions :: "string \<rightharpoonup> condition"

text \<open>Every error value the code can produce or pass on.\<close>

datatype error =
    ReadError string
  | EmptyFile string
  | DecodeError string
  | EmptyAudience string
  | PolicyExists
  | DuplicatedAudience string string
  | ErrRequestDenied
  | ErrRequestForcefullyDenied
  | NilPointerDereference

section \<open>Identity extraction: VerifyJWTMiddleware\<close>

record Claims =
  Subject :: string
  Audience :: "string list"
  Email :: string
  Groups :: "string list"

text \<open>An HTTP request, reduced to its headers (\<open>map[string][]string\<close>).\<close>

record http_Request =
  Header :: "string \<rightharpoonup> string list"

text \<open>\<open>Header.Get\<close>: the first value stored under the key, the empty string when there
  is none.\<close>

definition Header_Get :: "(string \<rightharpoonup> string list) \<Rightarrow> string \<Rightarrow> string" where
  "Header_Get h key = (case h key of None \<Rightarrow> [] | Some [] \<Rightarrow> [] | Some (v # _) \<Rightarrow> v)"

text \<open>\<open>jwt.Audience.Contains\<close>: linear search for an equal entry.\<close>

fun Contains :: "string list \<Rightarrow> string \<Rightarrow> bool" where
  "Contains [] v = False"
| "Contains (a # s) v = (if a = v then True else Contains s v)"

definition StatusBadRequest :: nat where "StatusBadRequest = 400"
definition StatusUnauthorized :: nat where "StatusUnauthorized = 401"
definition StatusForbidden :: nat where "StatusForbidden = 403"

text \<open>
  What the handler does to the gin context: either it aborts the chain with a status and
  a message, or it stores the principals under \<open>PrincipalsContextKey\<close> and calls the next
  handler.
\<close>

datatype gin_result =
    AbortWithStatusJSON nat string
  | Next Principals

text \<open>The loop over \<open>claims.Groups\<close>, appending to \<open>principals\<close>.\<close>

fun append_groups :: "Principals \<Rightarrow> string list \<Rightarrow> Principals" where
  "append_groups principals [] = principals"
| "append_groups principals (g # groups) =
     append_groups (principals @ [''group:'' @ g]) groups"

text \<open>
  The handler returned by \<open>VerifyJWTMiddleware\<close>. The validator is an interface of the
  source; its \<open>ExtractClaims\<close> is a parameter, returning the claims or the message of
  its error.
\<close>

definition VerifyJWTMiddleware ::
  "(http_Request \<Rightarrow> string + Claims) \<Rightarrow> http_Request \<Rightarrow> gin_result" where
  "VerifyJWTMiddleware ExtractClaims request =
     (case ExtractClaims request of
        Inl err \<Rightarrow> AbortWithStatusJSON StatusUnauthorized err
      | Inr claims \<Rightarrow>
          (let origin = Header_Get (Header request) ''Origin'' in
           if origin = [] then
             AbortWithStatusJSON StatusBadRequest ''Missing `Origin` request header''
           else if \<not> Contains (Claims.Audience claims) origin then
             AbortWithStatusJSON StatusForbidden ''Invalid audience claim''
           else
             (let principals = [];
                  userid = ''userid:'' @ Claims.Subject claims;
                  principals = principals @ [userid];
                  principals = (if Email claims \<noteq> [] then principals @ [''email:'' @ Email claims]
                                else principals);
                  principals = append_groups principals (Groups claims)
              in Next principals)))"

section \<open>The doorman: registry, reload, decisions, tag expansion\<close>

subsection \<open>What the policy library and the audit logger provide\<close>

text \<open>\<open>ladon.Request\<close>: one subject, a resource, an action and the context.\<close>

record ladon_Request =
  Resource :: string
  Action :: string
  Subject :: string
  Context :: "string \<rightharpoonup> ctx_value"

text \<open>
  One entry written by the audit logger: whether the request was allowed, the request,
  and the policies that decided.
\<close>

datatype audit_entry = AuditEntry bool ladon_Request "DefaultPolicy list"

text \<open>
  The logger object itself (a wrapper around a log writer) carries nothing a decision
  depends on; \<open>newAuditLogger\<close> builds it.
\<close>

datatype auditLogger = newAuditLogger

text \<open>
  Modelled from the spec: \<open>auditLogger.logRequest\<close> is defined in a file of this
  repository that is not among the sources. Section 6 of the specification: each audit
  record is exposed as \<open>{allowed, subject, resource, action, matchedPolicyIDs}\<close>; one
  call writes one record. The result is the list of records written.
\<close>

definition logRequest ::
  "auditLogger \<Rightarrow> bool \<Rightarrow> ladon_Request \<Rightarrow> DefaultPolicy list \<Rightarrow> audit_entry list" where
  "logRequest logger allowed r policies = [AuditEntry allowed r policies]"

text \<open>
  Modelled from the spec: the in-memory policy manager belongs to the policy library,
  which is not among the sources. Section 4.1 of the specification: the policies of an
  audience are inserted into a store keyed by ID, and a duplicate ID is an error. The
  store is the list of the policies created so far.
\<close>

type_synonym MemoryManager = "DefaultPolicy list"

definition NewMemoryManager :: MemoryManager where
  "NewMemoryManager = []"

definition Create :: "MemoryManager \<Rightarrow> DefaultPolicy \<Rightarrow> error + MemoryManager" where
  "Create m policy =
     (if ID policy \<in> set (map ID m) then Inl PolicyExists else Inr (m @ [policy]))"

text \<open>\<open>ladon.Ladon\<close>: a manager and the audit logger it was given.\<close>

record Ladon =
  Manager :: MemoryManager
  AuditLogger :: auditLogger

text \<open>
  The decision procedure of the library, \<open>Ladon.IsAllowed\<close>, is a parameter of the
  functions below: given the engine of an audience and a request it returns an error
  (\<open>None\<close> is Go's \<open>nil\<close>: the request is allowed) and the audit records it wrote.
\<close>

type_synonym engine = "Ladon \<Rightarrow> ladon_Request \<Rightarrow> error option \<times> audit_entry list"

text \<open>
  Modelled from the spec: \<open>Ladon.IsAllowed\<close> belongs to the policy library, which is
  not among the sources. Section 4.2, step 2 of the specification: select the policies
  whose subjects, resources and actions each match the request and whose conditions
  hold; if a selected policy has effect deny the result is deny; else if a selected
  policy has effect allow the result is allow; else it is deny. Pattern matching and
  the evaluation of conditions are parameters. The engine writes the decision to the
  audit logger it was built with (lines 64 to 67 of the source hand it over): for a deny
  the policies that caused it, for an allow the policies that granted it.
\<close>

definition selected ::
  "(string list \<Rightarrow> string \<Rightarrow> bool) \<Rightarrow> (DefaultPolicy \<Rightarrow> ladon_Request \<Rightarrow> bool) \<Rightarrow>
   ladon_Request \<Rightarrow> DefaultPolicy \<Rightarrow> bool" where
  "selected matches passes r p \<longleftrightarrow>
     matches (Subjects p) (Subject r) \<and> matches (Resources p) (Resource r) \<and>
     matches (Actions p) (Action r) \<and> passes p r"

definition ladon_IsAllowed ::
  "(string list \<Rightarrow> string \<Rightarrow> bool) \<Rightarrow> (DefaultPolicy \<Rightarrow> ladon_Request \<Rightarrow> bool) \<Rightarrow> engine" where
  "ladon_IsAllowed matches passes l r =
     (let sel = filter (selected matches passes r) (Manager l);
          denying = filter (\<lambda>p. Effect p = deny) sel
      in if denying \<noteq> [] then
           (Some ErrRequestForcefullyDenied, logRequest (AuditLogger l) False r denying)
         else if filter (\<lambda>p. Effect p = allow) sel \<noteq> [] then
           (None, logRequest (AuditLogger l) True r sel)
         else
           (Some ErrRequestDenied, logRequest (AuditLogger l) False r []))"

subsection \<open>The doorman\<close>

text \<open>
  \<open>Configuration\<close>: the content of one policies file. \<open>Tags\<close> is a Go map, which keeps
  no order of its entries. The field \<open>ladon\<close> is a pointer, \<open>None\<close> when nil.
\<close>

record Configuration =
  Audience :: string
  Tags :: "string \<rightharpoonup> Principals"
  Policies :: "DefaultPolicy list"
  ladon :: "Ladon option"

text \<open>\<open>LadonDoorman\<close>; the field \<open>auditLogger_ptr\<close> is \<open>_auditLogger\<close> of the source.\<close>

record LadonDoorman =
  policiesSources :: "string list"
  jwtIssuer :: string
  configs :: "string \<rightharpoonup> Configuration"
  auditLogger_ptr :: "auditLogger option"

text \<open>The request of a decision, as the doorman receives it.\<close>

record Request =
  Principals :: Principals
  Resource :: string
  Action :: string
  Context :: "string \<rightharpoonup> ctx_value"

definition New :: "string list \<Rightarrow> string \<Rightarrow> LadonDoorman" where
  "New policies issuer =
     \<lparr>policiesSources = policies, jwtIssuer = issuer, configs = Map.empty,
      auditLogger_ptr = None\<rparr>"

text \<open>The lazily built logger: the method returns it and the doorman that now holds it.\<close>

definition auditLogger :: "LadonDoorman \<Rightarrow> auditLogger \<times> LadonDoorman" where
  "auditLogger doorman =
     (case auditLogger_ptr doorman of
        None \<Rightarrow> (newAuditLogger, doorman\<lparr>auditLogger_ptr := Some newAuditLogger\<rparr>)
      | Some logger \<Rightarrow> (logger, doorman))"

definition JWTIssuer :: "LadonDoorman \<Rightarrow> string" where
  "JWTIssuer doorman = jwtIssuer doorman"

subsection \<open>loadConfiguration and LoadPolicies\<close>

text \<open>
  \<open>loadConfiguration\<close>. Reading the file and decoding its bytes (YAML to a generic
  value, to JSON, to a \<open>Configuration\<close>) are done by libraries: \<open>ReadFile\<close> and
  \<open>Unmarshal\<close> are parameters, each returning its error or its result. An empty policy
  list only logs a warning.
\<close>

definition loadConfiguration ::
  "(string \<Rightarrow> error + string) \<Rightarrow> (string \<Rightarrow> error + Configuration) \<Rightarrow> string \<Rightarrow>
   error + Configuration" where
  "loadConfiguration ReadFile Unmarshal filename =
     (case ReadFile filename of
        Inl err \<Rightarrow> Inl err
      | Inr yamlFile \<Rightarrow>
          if length yamlFile = 0 then Inl (EmptyFile filename)
          else (case Unmarshal yamlFile of
                  Inl err \<Rightarrow> Inl err
                | Inr config \<Rightarrow>
                    if Audience config = [] then Inl (EmptyAudience filename)
                    else Inr config))"

text \<open>The inner loop of \<open>LoadPolicies\<close>: create every policy of a file in its manager.\<close>

fun create_policies :: "MemoryManager \<Rightarrow> DefaultPolicy list \<Rightarrow> error + MemoryManager" where
  "create_policies m [] = Inr m"
| "create_policies m (pol # pols) =
     (case Create m pol of
        Inl err \<Rightarrow> Inl err
      | Inr m' \<Rightarrow> create_policies m' pols)"

text \<open>
  The outer loop of \<open>LoadPolicies\<close> over the file names, building the local map
  (\<open>configs\<close> in the source, \<open>cfgs\<close> here). It returns the error or the finished map,
  and the doorman, whose logger the loop may have built.
\<close>

fun load_sources ::
  "(string \<Rightarrow> error + string) \<Rightarrow> (string \<Rightarrow> error + Configuration) \<Rightarrow> LadonDoorman \<Rightarrow>
   (string \<rightharpoonup> Configuration) \<Rightarrow> string list \<Rightarrow>
   (error + (string \<rightharpoonup> Configuration)) \<times> LadonDoorman" where
  "load_sources ReadFile Unmarshal doorman cfgs [] = (Inr cfgs, doorman)"
| "load_sources ReadFile Unmarshal doorman cfgs (filename # rest) =
     (case loadConfiguration ReadFile Unmarshal filename of
        Inl err \<Rightarrow> (Inl err, doorman)
      | Inr config \<Rightarrow>
          (case create_policies NewMemoryManager (Policies config) of
             Inl err \<Rightarrow> (Inl err, snd (auditLogger doorman))
           | Inr m \<Rightarrow>
               (let config1 = config\<lparr>ladon :=
                      Some \<lparr>Manager = m, AuditLogger = fst (auditLogger doorman)\<rparr>\<rparr>
                in if cfgs (Audience config1) \<noteq> None then
                     (Inl (DuplicatedAudience (Audience config1) filename),
                      snd (auditLogger doorman))
                   else
                     load_sources ReadFile Unmarshal (snd (auditLogger doorman))
                       (cfgs(Audience config1 \<mapsto> config1)) rest)))"

text \<open>
  \<open>LoadPolicies\<close>: the error (\<open>None\<close> is nil) and the doorman afterwards. Only the last
  statement assigns \<open>doorman.configs\<close>.
\<close>

definition LoadPolicies ::
  "(string \<Rightarrow> error + string) \<Rightarrow> (string \<Rightarrow> error + Configuration) \<Rightarrow> LadonDoorman \<Rightarrow>
   error option \<times> LadonDoorman" where
  "LoadPolicies ReadFile Unmarshal doorman =
     (case load_sources ReadFile Unmarshal doorman Map.empty (policiesSources doorman) of
        (Inl err, doorman1) \<Rightarrow> (Some err, doorman1)
      | (Inr cfgs, doorman1) \<Rightarrow> (None, doorman1\<lparr>configs := cfgs\<rparr>))"

subsection \<open>IsAllowed\<close>

text \<open>
  The loop over the principals of the request. Each round stores the principal as the
  subject of \<open>r\<close> and asks the engine; a nil error returns true at once. Calling the
  engine through a nil pointer panics. The result comes with the audit records the
  engine wrote during the rounds.
\<close>

fun try_principals ::
  "engine \<Rightarrow> Ladon option \<Rightarrow> ladon_Request \<Rightarrow> Principals \<Rightarrow> (error + bool) \<times> audit_entry list" where
  "try_principals E l r [] = (Inr False, [])"
| "try_principals E l r (princ # rest) =
     (case l of
        None \<Rightarrow> (Inl NilPointerDereference, [])
      | Some lad \<Rightarrow>
          (case E lad (r\<lparr>Subject := princ\<rparr>) of
             (None, out) \<Rightarrow> (Inr True, out)
           | (Some err, out) \<Rightarrow>
               (fst (try_principals E l (r\<lparr>Subject := princ\<rparr>) rest),
                out @ snd (try_principals E l (r\<lparr>Subject := princ\<rparr>) rest))))"

text \<open>
  \<open>IsAllowed\<close>: the decision (or the panic), the audit records written during the call,
  and the doorman afterwards. The context of the request is copied entry by entry into
  a fresh map.
\<close>

definition IsAllowed ::
  "engine \<Rightarrow> LadonDoorman \<Rightarrow> string \<Rightarrow> Request \<Rightarrow>
   (error + bool) \<times> audit_entry list \<times> LadonDoorman" where
  "IsAllowed E doorman audience request =
     (let context = Map.empty ++ Request.Context request;
          r = \<lparr>ladon_Request.Resource = Request.Resource request,
               Action = Request.Action request,
               Subject = [],
               Context = context\<rparr>
      in case configs doorman audience of
           None \<Rightarrow>
             (Inr False,
              logRequest (fst (auditLogger doorman)) False r [],
              snd (auditLogger doorman))
         | Some c \<Rightarrow>
             (fst (try_principals E (ladon c) r (Principals request)),
              snd (try_principals E (ladon c) r (Principals request)),
              doorman))"

subsection \<open>ExpandPrincipals\<close>

text \<open>The three nested loops, innermost first; \<open>result\<close> is the slice being appended to.\<close>

fun match_principals :: "string \<Rightarrow> string \<Rightarrow> Principals \<Rightarrow> Principals \<Rightarrow> Principals" where
  "match_principals tag member [] result = result"
| "match_principals tag member (princ # rest) result =
     match_principals tag member rest
       (if princ = member then result @ [''tag:'' @ tag] else result)"

fun match_members :: "string \<Rightarrow> Principals \<Rightarrow> Principals \<Rightarrow> Principals \<Rightarrow> Principals" where
  "match_members tag [] principals result = result"
| "match_members tag (member # members) principals result =
     match_members tag members principals (match_principals tag member principals result)"

text \<open>
  The loop over \<open>c.Tags\<close> ranges over a Go map: the runtime visits every key once, in an
  order it chooses. The order of one run is the list \<open>order\<close>.
\<close>

definition range_order :: "('k \<rightharpoonup> 'v) \<Rightarrow> 'k list \<Rightarrow> bool" where
  "range_order m order \<longleftrightarrow> distinct order \<and> set order = dom m"

fun match_tags ::
  "(string \<rightharpoonup> Principals) \<Rightarrow> string list \<Rightarrow> Principals \<Rightarrow> Principals \<Rightarrow> Principals" where
  "match_tags tags [] principals result = result"
| "match_tags tags (tag # order) principals result =
     (case tags tag of
        None \<Rightarrow> match_tags tags order principals result
      | Some members \<Rightarrow>
          match_tags tags order principals (match_members tag members principals result))"

definition ExpandPrincipals ::
  "string list \<Rightarrow> LadonDoorman \<Rightarrow> string \<Rightarrow> Principals \<Rightarrow> Principals" where
  "ExpandPrincipals order doorman audience principals =
     (let result = principals
      in case configs doorman audience of
           None \<Rightarrow> result
         | Some c \<Rightarrow> match_tags (Tags c) order principals result)"

section \<open>Notions used to state the properties\<close>

text \<open>The library request that \<open>IsAllowed\<close> builds before it fills in a subject.\<close>

definition request0 :: "Request \<Rightarrow> ladon_Request" where
  "request0 request =
     \<lparr>ladon_Request.Resource = Request.Resource request,
      Action = Request.Action request, Subject = [],
      Context = Request.Context request\<rparr>"

text \<open>The engine allows request \<open>r\<close> once \<open>p\<close> is its subject.\<close>

definition allows :: "engine \<Rightarrow> Ladon \<Rightarrow> ladon_Request \<Rightarrow> string \<Rightarrow> bool" where
  "allows E lad r p \<longleftrightarrow> fst (E lad (r\<lparr>Subject := p\<rparr>)) = None"

text \<open>The audit records the engine writes when asked about each of \<open>ps\<close> in turn.\<close>

definition written :: "engine \<Rightarrow> Ladon \<Rightarrow> ladon_Request \<Rightarrow> Principals \<Rightarrow> audit_entry list" where
  "written E lad r ps = concat (map (\<lambda>p. snd (E lad (r\<lparr>Subject := p\<rparr>))) ps)"

text \<open>
  The principals the loop of \<open>IsAllowed\<close> gets to: those before the first one the engine
  allows, and that one.
\<close>

definition tried :: "engine \<Rightarrow> Ladon \<Rightarrow> ladon_Request \<Rightarrow> Principals \<Rightarrow> Principals" where
  "tried E lad r ps =
     takeWhile (\<lambda>p. \<not> allows E lad r p) ps @ take 1 (dropWhile (\<lambda>p. \<not> allows E lad r p) ps)"

text \<open>
  The policies that decide a request under section 4.2, step 2 of the specification: the
  selected policies with effect deny when there is one, otherwise the selected policies
  (all of them allow; none when nothing matches).
\<close>

definition deciders ::
  "(string list \<Rightarrow> string \<Rightarrow> bool) \<Rightarrow> (DefaultPolicy \<Rightarrow> ladon_Request \<Rightarrow> bool) \<Rightarrow>
   Ladon \<Rightarrow> ladon_Request \<Rightarrow> DefaultPolicy list" where
  "deciders matches passes lad r =
     (if filter (\<lambda>p. Effect p = deny) (filter (selected matches passes r) (Manager lad)) \<noteq> []
      then filter (\<lambda>p. Effect p = deny) (filter (selected matches passes r) (Manager lad))
      else filter (selected matches passes r) (Manager lad))"

text \<open>The configurations of the sources that load, in the order of the sources.\<close>

definition loaded ::
  "(string \<Rightarrow> error + string) \<Rightarrow> (string \<Rightarrow> error + Configuration) \<Rightarrow> string list \<Rightarrow>
   Configuration list" where
  "loaded ReadFile Unmarshal sources =
     concat (map (\<lambda>f. case loadConfiguration ReadFile Unmarshal f of
                         Inl err \<Rightarrow> [] | Inr config \<Rightarrow> [config]) sources)"

text \<open>
  A reload attempt has a failing source: a file that cannot be read, an empty file, a
  file that does not decode, an empty audience; a duplicate policy ID within one
  source; or one audience in two sources.
\<close>

definition reload_fails ::
  "(string \<Rightarrow> error + string) \<Rightarrow> (string \<Rightarrow> error + Configuration) \<Rightarrow> string list \<Rightarrow> bool" where
  "reload_fails ReadFile Unmarshal sources \<longleftrightarrow>
     (\<exists>f\<in>set sources.
        (\<exists>err. ReadFile f = Inl err) \<or> ReadFile f = Inr [] \<or>
        (\<exists>y. ReadFile f = Inr y \<and>
           ((\<exists>err. Unmarshal y = Inl err) \<or>
            (\<exists>config. Unmarshal y = Inr config \<and> Audience config = []))))
   \<or> (\<exists>config\<in>set (loaded ReadFile Unmarshal sources). \<not> distinct (map ID (Policies config)))
   \<or> \<not> distinct (map Audience (loaded ReadFile Unmarshal sources))"

text \<open>A loaded configuration as the registry holds it: with its own engine, whose
  manager stores the policies of the file.\<close>

definition published :: "Configuration \<Rightarrow> Configuration" where
  "published config =
     config\<lparr>ladon := Some \<lparr>Manager = Policies config, AuditLogger = newAuditLogger\<rparr>\<rparr>"

text \<open>
  The doormen a program can hold: built by \<open>New\<close>, then changed only by \<open>LoadPolicies\<close>
  and \<open>IsAllowed\<close> (the fields are not exported).
\<close>

inductive reachable :: "LadonDoorman \<Rightarrow> bool" where
  reachable_New: "reachable (New policies issuer)"
| reachable_LoadPolicies:
    "reachable doorman \<Longrightarrow> reachable (snd (LoadPolicies ReadFile Unmarshal doorman))"
| reachable_IsAllowed:
    "reachable doorman \<Longrightarrow> reachable (snd (snd (IsAllowed E doorman audience request)))"

section \<open>Example data\<close>

text \<open>
  A matcher that compares patterns literally and a condition check that always passes
  instantiate the parameters of the engine; two policies on the same subject, resource
  and action, one allowing and one denying, and a third that allows a group; two
  configurations and the files that hold them; and the doorman after loading both.
\<close>

definition literal_match :: "string list \<Rightarrow> string \<Rightarrow> bool" where
  "literal_match patterns s \<longleftrightarrow> s \<in> set patterns"

definition unconditional :: "DefaultPolicy \<Rightarrow> ladon_Request \<Rightarrow> bool" where
  "unconditional p r \<longleftrightarrow> True"

definition policy_allow :: DefaultPolicy where
  "policy_allow =
     \<lparr>ID = ''1'', Description = [], Subjects = [''userid:42''], Resources = [''doc:1''],
      Actions = [''read''], Effect = allow, Conditions = Map.empty\<rparr>"

definition policy_deny :: DefaultPolicy where
  "policy_deny =
     \<lparr>ID = ''2'', Description = [], Subjects = [''userid:42'', ''userid:7''],
      Resources = [''doc:1''], Actions = [''read''], Effect = deny, Conditions = Map.empty\<rparr>"

definition policy_staff :: DefaultPolicy where
  "policy_staff =
     \<lparr>ID = ''3'', Description = [], Subjects = [''group:staff''], Resources = [''doc:1''],
      Actions = [''read''], Effect = allow, Conditions = Map.empty\<rparr>"

definition config_svc1 :: Configuration where
  "config_svc1 =
     \<lparr>Audience = ''svc1'', Tags = [''admins'' \<mapsto> [''userid:42'']],
      Policies = [policy_allow], ladon = None\<rparr>"

definition config_svc2 :: Configuration where
  "config_svc2 =
     \<lparr>Audience = ''svc2'', Tags = [''a'' \<mapsto> [''p''], ''b'' \<mapsto> [''p'']],
      Policies = [policy_allow, policy_deny, policy_staff], ladon = None\<rparr>"

definition example_ReadFile :: "string \<Rightarrow> error + string" where
  "example_ReadFile f =
     (if f = ''svc1.yaml'' then Inr ''one''
      else if f = ''svc2.yaml'' then Inr ''two''
      else if f = ''empty.yaml'' then Inr []
      else Inl (ReadError f))"

definition example_Unmarshal :: "string \<Rightarrow> error + Configuration" where
  "example_Unmarshal y =
     (if y = ''one'' then Inr config_svc1
      else if y = ''two'' then Inr config_svc2
      else Inl (DecodeError y))"

definition example_doorman :: LadonDoorman where
  "example_doorman =
     \<lparr>policiesSources = [''svc1.yaml'', ''svc2.yaml''], jwtIssuer = [],
      configs = [''svc1'' \<mapsto> published config_svc1, ''svc2'' \<mapsto> published config_svc2],
      auditLogger_ptr = Some newAuditLogger\<rparr>"

definition example_request :: "Principals \<Rightarrow> Request" where
  "example_request ps =
     \<lparr>Principals = ps, Resource = ''doc:1'', Action = ''read'', Context = Map.empty\<rparr>"

section \<open>Properties of the identity extraction\<close>

lemma Contains_set: "Contains s v \<longleftrightarrow> v \<in> set s"
  by (induction s) auto

lemma append_groups_map:
  "append_groups principals groups = principals @ map (\<lambda>g. ''group:'' @ g) groups"
  by (induction groups arbitrary: principals) auto

text \<open>
  C8. Once the token's claims are verified, the handler aborts with 400 (bad request)
  when the request has no \<open>Origin\<close> header, aborts with 403 (forbidden) when the origin
  it sent is not one of the audiences of the claims, and in neither case stores a
  principal list for the handlers behind it.
\<close>

theorem VerifyJWTMiddleware_origin_failures:
  assumes "ExtractClaims request = Inr claims"
  shows "(Header request ''Origin'' = None \<longrightarrow>
            VerifyJWTMiddleware ExtractClaims request =
              AbortWithStatusJSON StatusBadRequest ''Missing `Origin` request header'')
       \<and> (Header_Get (Header request) ''Origin'' \<noteq> [] \<and>
          Header_Get (Header request) ''Origin'' \<notin> set (Claims.Audience claims) \<longrightarrow>
            VerifyJWTMiddleware ExtractClaims request =
              AbortWithStatusJSON StatusForbidden ''Invalid audience claim'')
       \<and> (Header request ''Origin'' = None \<or>
          Header_Get (Header request) ''Origin'' \<notin> set (Claims.Audience claims) \<longrightarrow>
            (\<forall>principals. VerifyJWTMiddleware ExtractClaims request \<noteq> Next principals))"
  using assms
  by (auto simp: VerifyJWTMiddleware_def Header_Get_def Contains_set Let_def)

theorem VerifyJWTMiddleware_origin_failures_witness:
  "VerifyJWTMiddleware
      (\<lambda>r. Inr \<lparr>Claims.Subject = ''42'', Claims.Audience = [''https://svc1/''], Email = [], Groups = []\<rparr>)
      \<lparr>Header = Map.empty\<rparr>
     = AbortWithStatusJSON 400 ''Missing `Origin` request header''
   \<and> VerifyJWTMiddleware
      (\<lambda>r. Inr \<lparr>Claims.Subject = ''42'', Claims.Audience = [''https://svc1/''], Email = [], Groups = []\<rparr>)
      \<lparr>Header = [''Origin'' \<mapsto> [''https://other/'']]\<rparr>
     = AbortWithStatusJSON 403 ''Invalid audience claim''"
  using VerifyJWTMiddleware_origin_failures
      [of "\<lambda>r. Inr \<lparr>Claims.Subject = ''42'', Claims.Audience = [''https://svc1/''], Email = [], Groups = []\<rparr>"
          "\<lparr>Header = Map.empty\<rparr>"
          "\<lparr>Claims.Subject = ''42'', Claims.Audience = [''https://svc1/''], Email = [], Groups = []\<rparr>"]
    VerifyJWTMiddleware_origin_failures
      [of "\<lambda>r. Inr \<lparr>Claims.Subject = ''42'', Claims.Audience = [''https://svc1/''], Email = [], Groups = []\<rparr>"
          "\<lparr>Header = [''Origin'' \<mapsto> [''https://other/'']]\<rparr>"
          "\<lparr>Claims.Subject = ''42'', Claims.Audience = [''https://svc1/''], Email = [], Groups = []\<rparr>"]
  by (simp add: Header_Get_def StatusBadRequest_def StatusForbidden_def)

text \<open>
  C9. When the handler lets the request through, the principal list it stores is
  \<open>userid:<subject>\<close>, then \<open>email:<email>\<close> exactly when the email claim is not empty,
  then \<open>group:<g>\<close> for each group of the claims in their order.
\<close>

theorem VerifyJWTMiddleware_principals:
  assumes "ExtractClaims request = Inr claims"
    and "VerifyJWTMiddleware ExtractClaims request = Next principals"
  shows "principals =
           [''userid:'' @ Claims.Subject claims]
           @ (if Email claims \<noteq> [] then [''email:'' @ Email claims] else [])
           @ map (\<lambda>g. ''group:'' @ g) (Groups claims)"
  using assms
  by (auto simp: VerifyJWTMiddleware_def Let_def append_groups_map split: if_splits)

theorem VerifyJWTMiddleware_principals_witness:
  "VerifyJWTMiddleware
      (\<lambda>r. Inr \<lparr>Claims.Subject = ''42'', Claims.Audience = [''https://svc1/''],
                Email = ''a@b.c'', Groups = [''admins'', ''staff'']\<rparr>)
      \<lparr>Header = [''Origin'' \<mapsto> [''https://svc1/'']]\<rparr>
     = Next [''userid:42'', ''email:a@b.c'', ''group:admins'', ''group:staff'']
   \<and> [''userid:42'', ''email:a@b.c'', ''group:admins'', ''group:staff'']
     = [''userid:'' @ ''42''] @ [''email:'' @ ''a@b.c'']
       @ map (\<lambda>g. ''group:'' @ g) [''admins'', ''staff'']"
proof -
  let ?claims = "\<lparr>Claims.Subject = ''42'', Claims.Audience = [''https://svc1/''],
                  Email = ''a@b.c'', Groups = [''admins'', ''staff'']\<rparr>"
  let ?req = "\<lparr>Header = [''Origin'' \<mapsto> [''https://svc1/'']]\<rparr>"
  have run: "VerifyJWTMiddleware (\<lambda>r. Inr ?claims) ?req
               = Next [''userid:42'', ''email:a@b.c'', ''group:admins'', ''group:staff'']"
    by (simp add: VerifyJWTMiddleware_def Header_Get_def)
  from VerifyJWTMiddleware_principals [of "\<lambda>r. Inr ?claims" ?req ?claims, OF _ run] run
  show ?thesis by simp
qed

section \<open>Properties of the reload\<close>

lemmas example_defs = literal_match_def unconditional_def policy_allow_def policy_deny_def
  policy_staff_def
  config_svc1_def config_svc2_def example_ReadFile_def example_Unmarshal_def
  example_doorman_def example_request_def

lemma loadConfiguration_fails:
  "(\<exists>err. loadConfiguration ReadFile Unmarshal f = Inl err) \<longleftrightarrow>
     (\<exists>err. ReadFile f = Inl err) \<or> ReadFile f = Inr [] \<or>
     (\<exists>y. ReadFile f = Inr y \<and>
        ((\<exists>err. Unmarshal y = Inl err) \<or>
         (\<exists>config. Unmarshal y = Inr config \<and> Audience config = [])))"
  by (auto simp: loadConfiguration_def split: sum.splits if_splits)

lemma reload_fails_alt:
  "reload_fails ReadFile Unmarshal sources \<longleftrightarrow>
     (\<exists>f\<in>set sources. \<exists>err. loadConfiguration ReadFile Unmarshal f = Inl err)
   \<or> (\<exists>config\<in>set (loaded ReadFile Unmarshal sources). \<not> distinct (map ID (Policies config)))
   \<or> \<not> distinct (map Audience (loaded ReadFile Unmarshal sources))"
  unfolding reload_fails_def loadConfiguration_fails ..

lemma create_policies_eq:
  "create_policies m pols =
     (if distinct (map ID pols) \<and> set (map ID m) \<inter> set (map ID pols) = {}
      then Inr (m @ pols) else Inl PolicyExists)"
  by (induction pols arbitrary: m) (auto simp: Create_def)

lemma create_policies_new:
  "create_policies NewMemoryManager pols =
     (if distinct (map ID pols) then Inr pols else Inl PolicyExists)"
  by (simp add: create_policies_eq NewMemoryManager_def)

lemma logger_unique: "(x::auditLogger) = newAuditLogger"
  by (cases x) simp

lemma configs_auditLogger [simp]: "configs (snd (auditLogger doorman)) = configs doorman"
  by (simp add: auditLogger_def split: option.splits)

lemma load_sources_configs:
  "configs (snd (load_sources ReadFile Unmarshal doorman cfgs sources)) = configs doorman"
  by (induction sources arbitrary: doorman cfgs)
     (auto simp: Let_def split: sum.splits)

lemma loaded_Cons:
  "loadConfiguration ReadFile Unmarshal f = Inr config \<Longrightarrow>
   loaded ReadFile Unmarshal (f # sources) = config # loaded ReadFile Unmarshal sources"
  by (simp add: loaded_def)

lemma load_sources_fails:
  "(\<exists>err. fst (load_sources ReadFile Unmarshal doorman cfgs sources) = Inl err) \<longleftrightarrow>
     reload_fails ReadFile Unmarshal sources \<or>
     (\<exists>config\<in>set (loaded ReadFile Unmarshal sources). cfgs (Audience config) \<noteq> None)"
proof (induction sources arbitrary: doorman cfgs)
  case Nil
  then show ?case by (simp add: reload_fails_alt loaded_def)
next
  case (Cons f sources)
  show ?case
  proof (cases "loadConfiguration ReadFile Unmarshal f")
    case (Inl err)
    then show ?thesis by (simp add: reload_fails_alt)
  next
    case (Inr config)
    note l = loaded_Cons [OF Inr]
    show ?thesis
    proof (cases "distinct (map ID (Policies config))")
      case False
      then show ?thesis using Inr l
        by (simp add: create_policies_new reload_fails_alt)
    next
      case True
      show ?thesis
      proof (cases "cfgs (Audience config)")
        case (Some a)
        then show ?thesis using Inr l True
          by (simp add: create_policies_new Let_def)
      next
        case None
        have "(\<exists>err. fst (load_sources ReadFile Unmarshal doorman cfgs (f # sources)) = Inl err)
           \<longleftrightarrow> (\<exists>err. fst (load_sources ReadFile Unmarshal (snd (auditLogger doorman))
                     (cfgs(Audience config \<mapsto>
                        config\<lparr>ladon := Some \<lparr>Manager = Policies config,
                                AuditLogger = fst (auditLogger doorman)\<rparr>\<rparr>)) sources) = Inl err)"
          using Inr True None by (simp add: create_policies_new Let_def)
        also have "\<dots> \<longleftrightarrow> reload_fails ReadFile Unmarshal sources \<or>
            (\<exists>c'\<in>set (loaded ReadFile Unmarshal sources).
                Audience c' = Audience config \<or> cfgs (Audience c') \<noteq> None)"
          by (subst Cons.IH) auto
        also have "\<dots> \<longleftrightarrow> reload_fails ReadFile Unmarshal (f # sources) \<or>
            (\<exists>c'\<in>set (loaded ReadFile Unmarshal (f # sources)). cfgs (Audience c') \<noteq> None)"
          using Inr True None unfolding l
          by (auto simp: reload_fails_alt l) (metis image_eqI)
        finally show ?thesis .
      qed
    qed
  qed
qed

lemma load_sources_result:
  "fst (load_sources ReadFile Unmarshal doorman cfgs sources) = Inr cfgs' \<Longrightarrow>
   cfgs' a = (case find (\<lambda>config. Audience config = a) (loaded ReadFile Unmarshal sources) of
                None \<Rightarrow> cfgs a | Some config \<Rightarrow> Some (published config))"
proof (induction sources arbitrary: doorman cfgs)
  case Nil
  then show ?case by (simp add: loaded_def)
next
  case (Cons f sources)
  from Cons.prems obtain config where Inr: "loadConfiguration ReadFile Unmarshal f = Inr config"
    by (auto split: sum.splits)
  note l = loaded_Cons [OF Inr]
  from Cons.prems Inr have d: "distinct (map ID (Policies config))"
    by (auto simp: create_policies_new split: if_splits)
  from Cons.prems Inr d have n: "cfgs (Audience config) = None"
    by (auto simp: create_policies_new Let_def split: if_splits)
  let ?c1 = "config\<lparr>ladon := Some \<lparr>Manager = Policies config,
                                AuditLogger = fst (auditLogger doorman)\<rparr>\<rparr>"
  have c1: "?c1 = published config"
    by (simp add: published_def logger_unique [of "fst (auditLogger doorman)"])
  have rest: "fst (load_sources ReadFile Unmarshal (snd (auditLogger doorman))
                 (cfgs(Audience config \<mapsto> ?c1)) sources) = Inr cfgs'"
    using Cons.prems Inr d n by (simp add: create_policies_new Let_def)
  have nofail: "\<not> (\<exists>err. fst (load_sources ReadFile Unmarshal (snd (auditLogger doorman))
                 (cfgs(Audience config \<mapsto> ?c1)) sources) = Inl err)"
    using rest by simp
  then have fresh: "\<forall>c'\<in>set (loaded ReadFile Unmarshal sources). Audience c' \<noteq> Audience config"
    unfolding load_sources_fails by auto
  have "cfgs' a = (case find (\<lambda>config. Audience config = a) (loaded ReadFile Unmarshal sources) of
                None \<Rightarrow> (cfgs(Audience config \<mapsto> ?c1)) a | Some config \<Rightarrow> Some (published config))"
    by (rule Cons.IH [OF rest])
  moreover have "Audience config = a \<Longrightarrow>
      find (\<lambda>config. Audience config = a) (loaded ReadFile Unmarshal sources) = None"
    using fresh by (auto simp: find_None_iff)
  ultimately show ?case
    unfolding l using c1 by (auto split: option.splits)
qed

text \<open>The two outcomes of a reload, in terms of the loop.\<close>

lemma LoadPolicies_cases:
  "(reload_fails ReadFile Unmarshal (policiesSources doorman) \<and>
      (\<exists>err. fst (LoadPolicies ReadFile Unmarshal doorman) = Some err) \<and>
      configs (snd (LoadPolicies ReadFile Unmarshal doorman)) = configs doorman)
 \<or> (\<not> reload_fails ReadFile Unmarshal (policiesSources doorman) \<and>
      fst (LoadPolicies ReadFile Unmarshal doorman) = None \<and>
      (\<forall>a. configs (snd (LoadPolicies ReadFile Unmarshal doorman)) a =
            map_option published
              (find (\<lambda>config. Audience config = a)
                 (loaded ReadFile Unmarshal (policiesSources doorman)))))"
proof -
  let ?res = "load_sources ReadFile Unmarshal doorman Map.empty (policiesSources doorman)"
  have f: "(\<exists>err. fst ?res = Inl err) \<longleftrightarrow> reload_fails ReadFile Unmarshal (policiesSources doorman)"
    by (simp add: load_sources_fails)
  have c: "configs (snd ?res) = configs doorman" by (rule load_sources_configs)
  show ?thesis
  proof (cases "fst ?res")
    case (Inl err)
    then have "reload_fails ReadFile Unmarshal (policiesSources doorman)" using f by auto
    moreover have "LoadPolicies ReadFile Unmarshal doorman = (Some err, snd ?res)"
      using Inl by (cases ?res) (simp add: LoadPolicies_def)
    ultimately show ?thesis using c by simp
  next
    case (Inr cfgs')
    then have nf: "\<not> reload_fails ReadFile Unmarshal (policiesSources doorman)" using f by auto
    have lp: "LoadPolicies ReadFile Unmarshal doorman = (None, (snd ?res)\<lparr>configs := cfgs'\<rparr>)"
      using Inr by (cases ?res) (simp add: LoadPolicies_def)
    have "\<And>a. cfgs' a = map_option published
              (find (\<lambda>config. Audience config = a)
                 (loaded ReadFile Unmarshal (policiesSources doorman)))"
      using load_sources_result [OF Inr] by (simp split: option.splits)
    with nf lp show ?thesis by simp
  qed
qed

text \<open>
  C1. A reload attempt with a failing source (a file that cannot be read, an empty
  file, an empty audience, an audience in two sources, a policy ID twice in one source)
  returns an error and leaves the registry as it was. The registry is replaced only when
  no source fails, and then by the whole new map at once: every audience of the sources
  with its configuration, and nothing else.
\<close>

theorem LoadPolicies_all_or_nothing:
  "(reload_fails ReadFile Unmarshal (policiesSources doorman) \<longrightarrow>
      (\<exists>err. fst (LoadPolicies ReadFile Unmarshal doorman) = Some err) \<and>
      configs (snd (LoadPolicies ReadFile Unmarshal doorman)) = configs doorman)
 \<and> (\<not> reload_fails ReadFile Unmarshal (policiesSources doorman) \<longrightarrow>
      fst (LoadPolicies ReadFile Unmarshal doorman) = None \<and>
      (\<forall>a. configs (snd (LoadPolicies ReadFile Unmarshal doorman)) a =
            map_option published
              (find (\<lambda>config. Audience config = a)
                 (loaded ReadFile Unmarshal (policiesSources doorman)))))"
  using LoadPolicies_cases [of ReadFile Unmarshal doorman] by blast

lemma loaded_example:
  "loaded example_ReadFile example_Unmarshal [''svc1.yaml'', ''svc2.yaml'']
     = [config_svc1, config_svc2]"
  by (simp add: loaded_def loadConfiguration_def example_defs)

lemma example_doorman_loaded:
  "LoadPolicies example_ReadFile example_Unmarshal (New [''svc1.yaml'', ''svc2.yaml''] [])
     = (None, example_doorman)"
  by (simp add: LoadPolicies_def New_def loadConfiguration_def
        Create_def NewMemoryManager_def auditLogger_def Let_def published_def example_defs)

theorem LoadPolicies_all_or_nothing_witness:
  "reload_fails (\<lambda>f. Inr []) example_Unmarshal (policiesSources example_doorman)
 \<and> fst (LoadPolicies (\<lambda>f. Inr []) example_Unmarshal example_doorman)
     = Some (EmptyFile ''svc1.yaml'')
 \<and> configs (snd (LoadPolicies (\<lambda>f. Inr []) example_Unmarshal example_doorman))
     = configs example_doorman
 \<and> \<not> reload_fails example_ReadFile example_Unmarshal
       (policiesSources (New [''svc1.yaml'', ''svc2.yaml''] []))
 \<and> fst (LoadPolicies example_ReadFile example_Unmarshal (New [''svc1.yaml'', ''svc2.yaml''] []))
     = None
 \<and> configs (snd (LoadPolicies example_ReadFile example_Unmarshal
                   (New [''svc1.yaml'', ''svc2.yaml''] []))) ''svc2''
     = Some (published config_svc2)"
proof -
  have fails: "reload_fails (\<lambda>f. Inr []) example_Unmarshal (policiesSources example_doorman)"
    by (auto simp: reload_fails_def example_doorman_def)
  have err: "fst (LoadPolicies (\<lambda>f. Inr []) example_Unmarshal example_doorman)
               = Some (EmptyFile ''svc1.yaml'')"
    by (simp add: LoadPolicies_def loadConfiguration_def example_doorman_def)
  have ok: "\<not> reload_fails example_ReadFile example_Unmarshal
               (policiesSources (New [''svc1.yaml'', ''svc2.yaml''] []))"
    by (simp add: reload_fails_def New_def loaded_example)
       (simp add: example_defs)
  have find2: "find (\<lambda>config. Audience config = ''svc2'')
                 (loaded example_ReadFile example_Unmarshal
                    (policiesSources (New [''svc1.yaml'', ''svc2.yaml''] []))) = Some config_svc2"
    by (simp add: New_def loaded_example) (simp add: example_defs)
  from LoadPolicies_all_or_nothing [of "\<lambda>f. Inr []" example_Unmarshal example_doorman]
       LoadPolicies_all_or_nothing [of example_ReadFile example_Unmarshal
                                       "New [''svc1.yaml'', ''svc2.yaml''] []"]
       fails err ok find2
  show ?thesis by simp
qed

section \<open>Properties of the decision\<close>

lemma allows_Subject [simp]: "allows E lad (r\<lparr>Subject := a\<rparr>) p = allows E lad r p"
  by (simp add: allows_def)

lemma written_Subject [simp]: "written E lad (r\<lparr>Subject := a\<rparr>) ps = written E lad r ps"
  by (simp add: written_def)

lemma try_principals_denied:
  "\<forall>p\<in>set ps. \<not> allows E lad r p \<Longrightarrow>
   try_principals E (Some lad) r ps = (Inr False, written E lad r ps)"
proof (induction ps arbitrary: r)
  case Nil
  then show ?case by (simp add: written_def)
next
  case (Cons a ps)
  from Cons.prems obtain err where e: "fst (E lad (r\<lparr>Subject := a\<rparr>)) = Some err"
    by (auto simp: allows_def)
  have "try_principals E (Some lad) (r\<lparr>Subject := a\<rparr>) ps
          = (Inr False, written E lad (r\<lparr>Subject := a\<rparr>) ps)"
    using Cons.prems by (intro Cons.IH) simp
  with e show ?case
    by (cases "E lad (r\<lparr>Subject := a\<rparr>)") (simp add: written_def)
qed

lemma try_principals_allowed:
  "i < length ps \<Longrightarrow> allows E lad r (ps ! i) \<Longrightarrow> \<forall>j<i. \<not> allows E lad r (ps ! j) \<Longrightarrow>
   try_principals E (Some lad) r ps = (Inr True, written E lad r (take (Suc i) ps))"
proof (induction ps arbitrary: r i)
  case Nil
  then show ?case by simp
next
  case (Cons a ps)
  show ?case
  proof (cases i)
    case 0
    with Cons.prems have "fst (E lad (r\<lparr>Subject := a\<rparr>)) = None"
      by (simp add: allows_def)
    with 0 show ?thesis
      by (cases "E lad (r\<lparr>Subject := a\<rparr>)") (simp add: written_def)
  next
    case (Suc k)
    have "\<not> allows E lad r a" using Cons.prems(3) Suc by auto
    then obtain err where e: "fst (E lad (r\<lparr>Subject := a\<rparr>)) = Some err"
      by (auto simp: allows_def)
    have "try_principals E (Some lad) (r\<lparr>Subject := a\<rparr>) ps
            = (Inr True, written E lad (r\<lparr>Subject := a\<rparr>) (take (Suc k) ps))"
      using Cons.prems Suc by (intro Cons.IH) auto
    with e Suc show ?thesis
      by (cases "E lad (r\<lparr>Subject := a\<rparr>)") (simp add: written_def)
  qed
qed

lemma try_principals_tried:
  "try_principals E (Some lad) r ps
     = (Inr (\<exists>p\<in>set ps. allows E lad r p), written E lad r (tried E lad r ps))"
proof (induction ps arbitrary: r)
  case Nil
  then show ?case by (simp add: written_def tried_def)
next
  case (Cons a ps)
  show ?case
  proof (cases "allows E lad r a")
    case True
    then have "fst (E lad (r\<lparr>Subject := a\<rparr>)) = None" by (simp add: allows_def)
    with True show ?thesis
      by (cases "E lad (r\<lparr>Subject := a\<rparr>)") (simp add: written_def tried_def)
  next
    case False
    then obtain err where e: "fst (E lad (r\<lparr>Subject := a\<rparr>)) = Some err"
      by (auto simp: allows_def)
    have t: "tried E lad r (a # ps) = a # tried E lad r ps"
      using False by (simp add: tried_def)
    from e False show ?thesis unfolding t
      by (cases "E lad (r\<lparr>Subject := a\<rparr>)")
         (simp add: Cons.IH [of "r\<lparr>Subject := a\<rparr>"] tried_def written_def)
  qed
qed

lemma IsAllowed_configured:
  "configs doorman audience = Some c \<Longrightarrow>
   IsAllowed E doorman audience request
     = (fst (try_principals E (ladon c) (request0 request) (Principals request)),
        snd (try_principals E (ladon c) (request0 request) (Principals request)),
        doorman)"
  by (simp add: IsAllowed_def request0_def Let_def)

lemma IsAllowed_configs [simp]:
  "configs (snd (snd (IsAllowed E doorman audience request))) = configs doorman"
  by (simp add: IsAllowed_def Let_def split: option.splits)

lemma reachable_registry:
  "reachable doorman \<Longrightarrow> configs doorman a = Some c \<Longrightarrow>
   ladon c = Some \<lparr>Manager = Policies c, AuditLogger = newAuditLogger\<rparr>"
proof (induction arbitrary: a c rule: reachable.induct)
  case (reachable_New policies issuer)
  then show ?case by (simp add: New_def)
next
  case (reachable_LoadPolicies doorman ReadFile Unmarshal)
  from LoadPolicies_cases [of ReadFile Unmarshal doorman] show ?case
  proof (elim disjE conjE)
    assume "configs (snd (LoadPolicies ReadFile Unmarshal doorman)) = configs doorman"
    with reachable_LoadPolicies show ?thesis by simp
  next
    assume "\<forall>a. configs (snd (LoadPolicies ReadFile Unmarshal doorman)) a =
            map_option published
              (find (\<lambda>config. Audience config = a)
                 (loaded ReadFile Unmarshal (policiesSources doorman)))"
    with reachable_LoadPolicies.prems obtain c0 where "c = published c0" by auto
    then show ?thesis by (simp add: published_def)
  qed
next
  case (reachable_IsAllowed doorman E audience request)
  then show ?case by simp
qed

lemma ladon_IsAllowed_deny:
  "pol \<in> set (Manager lad) \<Longrightarrow> Effect pol = deny \<Longrightarrow> selected matches passes r pol \<Longrightarrow>
   fst (ladon_IsAllowed matches passes lad r) = Some ErrRequestForcefullyDenied"
  by (auto simp: ladon_IsAllowed_def Let_def filter_empty_conv)

lemma ladon_IsAllowed_no_match:
  "\<forall>pol\<in>set (Manager lad). \<not> selected matches passes r pol \<Longrightarrow>
   fst (ladon_IsAllowed matches passes lad r) = Some ErrRequestDenied"
  by (auto simp: ladon_IsAllowed_def Let_def filter_empty_conv)

lemma ladon_IsAllowed_one_record:
  "length (snd (ladon_IsAllowed matches passes lad r)) = 1"
  by (simp add: ladon_IsAllowed_def Let_def logRequest_def)

lemma length_written:
  "\<forall>p\<in>set ps. length (snd (E lad (r\<lparr>Subject := p\<rparr>))) = 1 \<Longrightarrow>
   length (written E lad r ps) = length ps"
  by (induction ps) (auto simp: written_def)

lemma example_reachable: "reachable example_doorman"
  using reachable_LoadPolicies [OF reachable_New,
          of example_ReadFile example_Unmarshal "[''svc1.yaml'', ''svc2.yaml'']" "[]"]
  by (simp add: example_doorman_loaded)

lemma example_svc1: "configs example_doorman ''svc1'' = Some (published config_svc1)"
  by (simp add: example_doorman_def)

lemma example_svc2: "configs example_doorman ''svc2'' = Some (published config_svc2)"
  by (simp add: example_doorman_def)

text \<open>
  C2. When a policy of the audience with effect deny matches the subject, resource,
  action and conditions of a request for a principal, the engine denies that principal
  whatever other policies match it, also allowing ones. \<open>IsAllowed\<close> then returns false
  for a request with that principal alone, and for a request with more principals it
  never returns true on account of that principal: a true result comes from another
  principal, one that the engine allows.
\<close>

theorem IsAllowed_deny_overrides:
  assumes "configs doorman audience = Some c" and "ladon c = Some lad"
    and "pol \<in> set (Manager lad)" and "Effect pol = deny"
    and "selected matches passes ((request0 request)\<lparr>Subject := p\<rparr>) pol"
  shows "fst (ladon_IsAllowed matches passes lad ((request0 request)\<lparr>Subject := p\<rparr>))
           = Some ErrRequestForcefullyDenied
       \<and> fst (IsAllowed (ladon_IsAllowed matches passes) doorman audience
                (request\<lparr>Principals := [p]\<rparr>)) = Inr False
       \<and> (fst (IsAllowed (ladon_IsAllowed matches passes) doorman audience request) = Inr True
            \<longrightarrow> (\<exists>q\<in>set (Principals request). q \<noteq> p \<and>
                   allows (ladon_IsAllowed matches passes) lad (request0 request) q))"
proof -
  let ?E = "ladon_IsAllowed matches passes"
  have d: "fst (?E lad ((request0 request)\<lparr>Subject := p\<rparr>)) = Some ErrRequestForcefullyDenied"
    using assms(3-5) by (rule ladon_IsAllowed_deny)
  then have n: "\<not> allows ?E lad (request0 request) p"
    by (simp add: allows_def)
  have r: "request0 (request\<lparr>Principals := [p]\<rparr>) = request0 request"
    by (simp add: request0_def)
  have "try_principals ?E (Some lad) (request0 request) [p]
          = (Inr False, written ?E lad (request0 request) [p])"
    by (rule try_principals_denied) (simp add: n)
  then have one:
    "fst (IsAllowed ?E doorman audience (request\<lparr>Principals := [p]\<rparr>)) = Inr False"
    using assms(1,2) by (simp add: IsAllowed_configured r del: try_principals.simps)
  have "\<exists>q\<in>set (Principals request). q \<noteq> p \<and> allows ?E lad (request0 request) q"
    if "fst (IsAllowed ?E doorman audience request) = Inr True"
  proof -
    from that assms(1,2) obtain q
      where "q \<in> set (Principals request)" and "allows ?E lad (request0 request) q"
      by (auto simp: IsAllowed_configured try_principals_tried)
    with n show ?thesis by auto
  qed
  with d one show ?thesis by simp
qed

theorem IsAllowed_deny_overrides_witness:
  "selected literal_match unconditional
     ((request0 (example_request [''userid:42'', ''group:staff'']))\<lparr>Subject := ''userid:42''\<rparr>)
     policy_allow
 \<and> selected literal_match unconditional
     ((request0 (example_request [''userid:42'', ''group:staff'']))\<lparr>Subject := ''userid:42''\<rparr>)
     policy_deny
 \<and> fst (ladon_IsAllowed literal_match unconditional
          \<lparr>Manager = [policy_allow, policy_deny, policy_staff], AuditLogger = newAuditLogger\<rparr>
          ((request0 (example_request [''userid:42'', ''group:staff'']))
             \<lparr>Subject := ''userid:42''\<rparr>))
     = Some ErrRequestForcefullyDenied
 \<and> fst (IsAllowed (ladon_IsAllowed literal_match unconditional) example_doorman ''svc2''
          (example_request [''userid:42''])) = Inr False
 \<and> fst (IsAllowed (ladon_IsAllowed literal_match unconditional) example_doorman ''svc2''
          (example_request [''userid:42'', ''group:staff''])) = Inr True
 \<and> allows (ladon_IsAllowed literal_match unconditional)
      \<lparr>Manager = [policy_allow, policy_deny, policy_staff], AuditLogger = newAuditLogger\<rparr>
      (request0 (example_request [''userid:42'', ''group:staff''])) ''group:staff''"
proof -
  let ?E = "ladon_IsAllowed literal_match unconditional"
  let ?lad = "\<lparr>Manager = [policy_allow, policy_deny, policy_staff],
               AuditLogger = newAuditLogger\<rparr>"
  let ?req = "example_request [''userid:42'', ''group:staff'']"
  have l: "ladon (published config_svc2) = Some ?lad"
    by (simp add: published_def config_svc2_def)
  have m: "policy_deny \<in> set (Manager ?lad)" by simp
  have e: "Effect policy_deny = deny" by (simp add: policy_deny_def)
  have sa: "selected literal_match unconditional
              ((request0 ?req)\<lparr>Subject := ''userid:42''\<rparr>) policy_allow"
    by (simp add: selected_def request0_def example_defs)
  have sd: "selected literal_match unconditional
              ((request0 ?req)\<lparr>Subject := ''userid:42''\<rparr>) policy_deny"
    by (simp add: selected_def request0_def example_defs)
  have single: "?req\<lparr>Principals := [''userid:42'']\<rparr> = example_request [''userid:42'']"
    by (simp add: example_request_def)
  have staff: "allows ?E ?lad (request0 ?req) ''group:staff''"
    by (simp add: allows_def ladon_IsAllowed_def selected_def request0_def Let_def
          example_defs)
  have pe: "Principals ?req = [''userid:42'', ''group:staff'']"
    by (simp add: example_request_def)
  have both: "fst (IsAllowed ?E example_doorman ''svc2'' ?req) = Inr True"
    using staff
      try_principals_tried [of ?E ?lad "request0 ?req" "[''userid:42'', ''group:staff'']"]
    by (simp add: IsAllowed_configured [OF example_svc2] l pe del: try_principals.simps)
  from IsAllowed_deny_overrides [OF example_svc2 l m e sd] sa sd single staff both
  show ?thesis by simp
qed

text \<open>
  C3. On every doorman a program can hold, \<open>IsAllowed\<close> returns a boolean (it does not
  fail), whatever the engine answers; and when no policy of the audience matches any
  principal of the request, that boolean is false.
\<close>

theorem IsAllowed_default_deny:
  assumes "reachable doorman"
  shows "(\<exists>b. fst (IsAllowed E doorman audience request) = Inr b)
       \<and> ((\<forall>c. configs doorman audience = Some c \<longrightarrow>
              (\<forall>p\<in>set (Principals request). \<forall>pol\<in>set (Policies c).
                 \<not> selected matches passes ((request0 request)\<lparr>Subject := p\<rparr>) pol)) \<longrightarrow>
           fst (IsAllowed (ladon_IsAllowed matches passes) doorman audience request)
             = Inr False)"
proof (cases "configs doorman audience")
  case None
  then show ?thesis by (auto simp: IsAllowed_def Let_def)
next
  case (Some c)
  let ?lad = "\<lparr>Manager = Policies c, AuditLogger = newAuditLogger\<rparr>"
  have l: "ladon c = Some ?lad"
    using reachable_registry [OF assms Some] .
  have total: "\<exists>b. fst (IsAllowed E doorman audience request) = Inr b"
    using Some l by (simp add: IsAllowed_configured try_principals_tried)
  have "fst (IsAllowed (ladon_IsAllowed matches passes) doorman audience request) = Inr False"
    if "\<forall>p\<in>set (Principals request). \<forall>pol\<in>set (Policies c).
          \<not> selected matches passes ((request0 request)\<lparr>Subject := p\<rparr>) pol"
  proof -
    have "\<forall>p\<in>set (Principals request).
            \<not> allows (ladon_IsAllowed matches passes) ?lad (request0 request) p"
      using that by (simp add: allows_def ladon_IsAllowed_no_match)
    then show ?thesis
      using Some l by (simp add: IsAllowed_configured try_principals_denied)
  qed
  with total Some show ?thesis by simp
qed

theorem IsAllowed_default_deny_witness:
  "reachable example_doorman
 \<and> Policies (published config_svc1) = [policy_allow]
 \<and> \<not> selected literal_match unconditional
       ((request0 (example_request [''userid:99'']))\<lparr>Subject := ''userid:99''\<rparr>) policy_allow
 \<and> fst (IsAllowed (ladon_IsAllowed literal_match unconditional) example_doorman ''svc1''
          (example_request [''userid:99''])) = Inr False"
proof -
  have n: "\<forall>p\<in>set (Principals (example_request [''userid:99''])).
      \<forall>pol\<in>set (Policies (published config_svc1)).
        \<not> selected literal_match unconditional
            ((request0 (example_request [''userid:99'']))\<lparr>Subject := p\<rparr>) pol"
    by (simp add: selected_def request0_def published_def example_defs)
  from IsAllowed_default_deny [OF example_reachable,
         of "ladon_IsAllowed literal_match unconditional" "''svc1''"
            "example_request [''userid:99'']" literal_match unconditional]
       n example_reachable example_svc1
  show ?thesis
    by (simp add: example_request_def) (simp add: published_def config_svc1_def)
qed

text \<open>
  C4. For an audience that the registry does not hold, \<open>IsAllowed\<close> returns false and
  writes exactly one audit record: a denied one, for the request, with no policy.
\<close>

theorem IsAllowed_unknown_audience:
  assumes "configs doorman audience = None"
  shows "fst (IsAllowed E doorman audience request) = Inr False
       \<and> fst (snd (IsAllowed E doorman audience request))
           = [AuditEntry False (request0 request) []]"
  using assms by (simp add: IsAllowed_def logRequest_def request0_def Let_def)

theorem IsAllowed_unknown_audience_witness:
  "configs example_doorman ''other'' = None
 \<and> fst (IsAllowed (ladon_IsAllowed literal_match unconditional) example_doorman ''other''
          (example_request [''userid:42''])) = Inr False
 \<and> fst (snd (IsAllowed (ladon_IsAllowed literal_match unconditional) example_doorman ''other''
               (example_request [''userid:42''])))
     = [AuditEntry False
          \<lparr>ladon_Request.Resource = ''doc:1'', Action = ''read'', Subject = [],
           Context = Map.empty\<rparr> []]"
proof -
  have n: "configs example_doorman ''other'' = None"
    by (simp add: example_doorman_def)
  from IsAllowed_unknown_audience [OF n, of "ladon_IsAllowed literal_match unconditional"
         "example_request [''userid:42'']"] n
  show ?thesis by (simp add: request0_def example_request_def)
qed

text \<open>
  C5. For a configured audience, \<open>IsAllowed\<close> asks the engine about the principals one
  at a time, in the order of the request, each as the only subject. At the first
  principal the engine allows it returns true, having asked about that principal and
  those before it and about none after it; it returns false only after asking about
  every principal without an allow.
\<close>

theorem IsAllowed_principal_order:
  assumes "configs doorman audience = Some c" and "ladon c = Some lad"
  shows "(\<forall>i<length (Principals request).
            allows E lad (request0 request) (Principals request ! i) \<and>
            (\<forall>j<i. \<not> allows E lad (request0 request) (Principals request ! j)) \<longrightarrow>
            IsAllowed E doorman audience request
              = (Inr True,
                 written E lad (request0 request) (take (Suc i) (Principals request)),
                 doorman))
       \<and> ((\<forall>p\<in>set (Principals request). \<not> allows E lad (request0 request) p) \<longrightarrow>
            IsAllowed E doorman audience request
              = (Inr False, written E lad (request0 request) (Principals request), doorman))
       \<and> (fst (IsAllowed E doorman audience request) = Inr False \<longrightarrow>
            (\<forall>p\<in>set (Principals request). \<not> allows E lad (request0 request) p))"
proof (intro conjI allI impI)
  fix i
  assume "i < length (Principals request)"
    and "allows E lad (request0 request) (Principals request ! i) \<and>
         (\<forall>j<i. \<not> allows E lad (request0 request) (Principals request ! j))"
  then show "IsAllowed E doorman audience request
              = (Inr True,
                 written E lad (request0 request) (take (Suc i) (Principals request)),
                 doorman)"
    using assms by (simp add: IsAllowed_configured try_principals_allowed)
next
  assume "\<forall>p\<in>set (Principals request). \<not> allows E lad (request0 request) p"
  then show "IsAllowed E doorman audience request
              = (Inr False, written E lad (request0 request) (Principals request), doorman)"
    using assms by (simp add: IsAllowed_configured try_principals_denied)
next
  assume "fst (IsAllowed E doorman audience request) = Inr False"
  then show "\<forall>p\<in>set (Principals request). \<not> allows E lad (request0 request) p"
    using assms by (simp add: IsAllowed_configured try_principals_tried)
qed

theorem IsAllowed_principal_order_witness:
  "IsAllowed (ladon_IsAllowed literal_match unconditional) example_doorman ''svc1''
     (example_request [''userid:99'', ''userid:42'', ''userid:1''])
     = (Inr True,
        [AuditEntry False
           \<lparr>ladon_Request.Resource = ''doc:1'', Action = ''read'', Subject = ''userid:99'',
            Context = Map.empty\<rparr> [],
         AuditEntry True
           \<lparr>ladon_Request.Resource = ''doc:1'', Action = ''read'', Subject = ''userid:42'',
            Context = Map.empty\<rparr> [policy_allow]],
        example_doorman)
 \<and> IsAllowed (ladon_IsAllowed literal_match unconditional) example_doorman ''svc1''
     (example_request [''userid:99'', ''userid:1''])
     = (Inr False,
        [AuditEntry False
           \<lparr>ladon_Request.Resource = ''doc:1'', Action = ''read'', Subject = ''userid:99'',
            Context = Map.empty\<rparr> [],
         AuditEntry False
           \<lparr>ladon_Request.Resource = ''doc:1'', Action = ''read'', Subject = ''userid:1'',
            Context = Map.empty\<rparr> []],
        example_doorman)"
proof -
  let ?E = "ladon_IsAllowed literal_match unconditional"
  let ?lad = "\<lparr>Manager = [policy_allow], AuditLogger = newAuditLogger\<rparr>"
  have l: "ladon (published config_svc1) = Some ?lad"
    by (simp add: published_def config_svc1_def)
  have a: "\<And>ps p. allows ?E ?lad (request0 (example_request ps)) p \<longleftrightarrow> p = ''userid:42''"
    by (auto simp: allows_def ladon_IsAllowed_def selected_def request0_def Let_def
          example_defs)
  have w: "\<And>ps p. snd (?E ?lad ((request0 (example_request ps))\<lparr>Subject := p\<rparr>))
             = (if p = ''userid:42''
                then [AuditEntry True
                        \<lparr>ladon_Request.Resource = ''doc:1'', Action = ''read'', Subject = p,
                         Context = Map.empty\<rparr> [policy_allow]]
                else [AuditEntry False
                        \<lparr>ladon_Request.Resource = ''doc:1'', Action = ''read'', Subject = p,
                         Context = Map.empty\<rparr> []])"
    by (auto simp: ladon_IsAllowed_def selected_def request0_def Let_def logRequest_def
          literal_match_def unconditional_def example_request_def)
       (simp_all add: policy_allow_def)
  have pe: "\<And>ps. Principals (example_request ps) = ps"
    by (simp add: example_request_def)
  note t = IsAllowed_principal_order [OF example_svc1 l, of _ ?E]
  from t [of "example_request [''userid:99'', ''userid:42'', ''userid:1'']",
          THEN conjunct1, rule_format, of 1]
  have "IsAllowed ?E example_doorman ''svc1''
          (example_request [''userid:99'', ''userid:42'', ''userid:1''])
        = (Inr True,
           written ?E ?lad (request0 (example_request [''userid:99'', ''userid:42'', ''userid:1'']))
             (take (Suc 1) (Principals (example_request [''userid:99'', ''userid:42'', ''userid:1'']))),
           example_doorman)"
    by (simp add: a pe)
  moreover from t [of "example_request [''userid:99'', ''userid:1'']",
                   THEN conjunct2, THEN conjunct1]
  have "IsAllowed ?E example_doorman ''svc1'' (example_request [''userid:99'', ''userid:1''])
        = (Inr False,
           written ?E ?lad (request0 (example_request [''userid:99'', ''userid:1'']))
             (Principals (example_request [''userid:99'', ''userid:1''])),
           example_doorman)"
    by (simp add: a pe)
  ultimately show ?thesis
    by (simp add: written_def w pe)
qed

lemma ladon_IsAllowed_record:
  "snd (ladon_IsAllowed matches passes lad r)
     = [AuditEntry (fst (ladon_IsAllowed matches passes lad r) = None) r
          (deciders matches passes lad r)]"
proof -
  let ?sel = "filter (selected matches passes r) (Manager lad)"
  have "?sel = []" if "filter (\<lambda>p. Effect p = deny) ?sel = []"
    and "filter (\<lambda>p. Effect p = allow) ?sel = []"
  proof (rule ccontr)
    assume "?sel \<noteq> []"
    then obtain x where x: "x \<in> set ?sel" by (cases ?sel) auto
    from that x have "Effect x \<noteq> deny" "Effect x \<noteq> allow"
      by (auto simp: filter_empty_conv)
    then show False by (cases "Effect x") auto
  qed
  then show ?thesis
    by (auto simp: ladon_IsAllowed_def deciders_def Let_def logRequest_def)
qed

lemma written_ladon_IsAllowed:
  "written (ladon_IsAllowed matches passes) lad r ps
     = map (\<lambda>p. AuditEntry (allows (ladon_IsAllowed matches passes) lad r p)
                  (r\<lparr>Subject := p\<rparr>) (deciders matches passes lad (r\<lparr>Subject := p\<rparr>))) ps"
  by (induction ps) (simp_all add: written_def allows_def ladon_IsAllowed_record)

text \<open>
  C6, as the code has it. For an audience that the registry does not hold,
  \<open>IsAllowed\<close> writes exactly one audit record, denied and with no policy. For a
  configured audience and a request with at least one principal it writes no record of
  its own: the records of the call are the ones the engine writes, principal after
  principal, for the principals the loop gets to; with an engine that writes one record
  for each evaluation, the call produces as many records as principals were tried. With
  the engine of section 4.2 the record of each principal tried carries the decision for
  that principal, the request with that principal as its subject, and the policies that
  decided: the matching deny policies for a deny by policy, the matching policies for an
  allow, none when nothing matched.
\<close>

theorem IsAllowed_audit_records:
  "(configs doorman audience = None \<longrightarrow>
      fst (snd (IsAllowed E doorman audience request))
        = [AuditEntry False (request0 request) []])
 \<and> (\<forall>c lad. configs doorman audience = Some c \<and> ladon c = Some lad \<and>
            Principals request \<noteq> [] \<longrightarrow>
      fst (snd (IsAllowed E doorman audience request))
        = written E lad (request0 request) (tried E lad (request0 request) (Principals request))
    \<and> ((\<forall>r. length (snd (E lad r)) = 1) \<longrightarrow>
         length (fst (snd (IsAllowed E doorman audience request)))
           = length (tried E lad (request0 request) (Principals request)))
    \<and> fst (snd (IsAllowed (ladon_IsAllowed matches passes) doorman audience request))
        = map (\<lambda>p. AuditEntry
                      (allows (ladon_IsAllowed matches passes) lad (request0 request) p)
                      ((request0 request)\<lparr>Subject := p\<rparr>)
                      (deciders matches passes lad ((request0 request)\<lparr>Subject := p\<rparr>)))
            (tried (ladon_IsAllowed matches passes) lad (request0 request)
               (Principals request)))"
proof -
  have "fst (snd (IsAllowed E doorman audience request))
          = [AuditEntry False (request0 request) []]"
    if "configs doorman audience = None"
    using that by (simp add: IsAllowed_def logRequest_def request0_def Let_def)
  moreover have "fst (snd (IsAllowed E' doorman audience request))
        = written E' lad (request0 request) (tried E' lad (request0 request) (Principals request))"
    if "configs doorman audience = Some c" "ladon c = Some lad" for c lad E'
    using that by (simp add: IsAllowed_configured try_principals_tried)
  moreover have "length (written E lad (request0 request) ps) = length ps"
    if "\<forall>r. length (snd (E lad r)) = 1" for lad ps
    using that by (simp add: length_written)
  ultimately show ?thesis by (simp add: written_ladon_IsAllowed)
qed

theorem IsAllowed_audit_records_witness:
  "configs example_doorman ''other'' = None
 \<and> length (fst (snd (IsAllowed (ladon_IsAllowed literal_match unconditional) example_doorman
                       ''other'' (example_request [''userid:42''])))) = 1
 \<and> configs example_doorman ''svc1'' = Some (published config_svc1)
 \<and> ladon (published config_svc1)
     = Some \<lparr>Manager = [policy_allow], AuditLogger = newAuditLogger\<rparr>
 \<and> Principals (example_request [''userid:99'', ''userid:42'', ''userid:1'']) \<noteq> []
 \<and> (\<forall>r. length (snd (ladon_IsAllowed literal_match unconditional
                        \<lparr>Manager = [policy_allow], AuditLogger = newAuditLogger\<rparr> r)) = 1)
 \<and> tried (ladon_IsAllowed literal_match unconditional)
      \<lparr>Manager = [policy_allow], AuditLogger = newAuditLogger\<rparr>
      (request0 (example_request [''userid:99'', ''userid:42'', ''userid:1'']))
      (Principals (example_request [''userid:99'', ''userid:42'', ''userid:1'']))
     = [''userid:99'', ''userid:42'']
 \<and> length (fst (snd (IsAllowed (ladon_IsAllowed literal_match unconditional) example_doorman
                       ''svc1'' (example_request [''userid:99'', ''userid:42'', ''userid:1''])))) = 2
 \<and> fst (snd (IsAllowed (ladon_IsAllowed literal_match unconditional) example_doorman
               ''svc1'' (example_request [''userid:99'', ''userid:42'', ''userid:1''])))
     = [AuditEntry False
          \<lparr>ladon_Request.Resource = ''doc:1'', Action = ''read'', Subject = ''userid:99'',
           Context = Map.empty\<rparr> [],
        AuditEntry True
          \<lparr>ladon_Request.Resource = ''doc:1'', Action = ''read'', Subject = ''userid:42'',
           Context = Map.empty\<rparr> [policy_allow]]"
proof -
  let ?E = "ladon_IsAllowed literal_match unconditional"
  let ?lad = "\<lparr>Manager = [policy_allow], AuditLogger = newAuditLogger\<rparr>"
  let ?req = "example_request [''userid:99'', ''userid:42'', ''userid:1'']"
  have n: "configs example_doorman ''other'' = None"
    by (simp add: example_doorman_def)
  have l: "ladon (published config_svc1) = Some ?lad"
    by (simp add: published_def config_svc1_def)
  have ne: "Principals ?req \<noteq> []"
    by (simp add: example_request_def)
  have one: "\<forall>r. length (snd (?E ?lad r)) = 1"
    by (simp add: ladon_IsAllowed_one_record)
  have a: "\<And>ps p. allows ?E ?lad (request0 (example_request ps)) p \<longleftrightarrow> p = ''userid:42''"
    by (auto simp: allows_def ladon_IsAllowed_def selected_def request0_def Let_def
          example_defs)
  have t: "tried ?E ?lad (request0 ?req) (Principals ?req) = [''userid:99'', ''userid:42'']"
    by (simp add: tried_def a) (simp add: example_request_def)
  have d99: "deciders literal_match unconditional ?lad
               ((request0 ?req)\<lparr>Subject := ''userid:99''\<rparr>) = []"
    by (simp add: deciders_def selected_def request0_def example_defs)
  have d42: "deciders literal_match unconditional ?lad
               ((request0 ?req)\<lparr>Subject := ''userid:42''\<rparr>) = [policy_allow]"
    by (simp add: deciders_def selected_def request0_def example_defs)
  have r0: "request0 ?req
              = \<lparr>ladon_Request.Resource = ''doc:1'', Action = ''read'', Subject = [],
                 Context = Map.empty\<rparr>"
    by (simp add: request0_def example_request_def)
  note first = IsAllowed_audit_records [of example_doorman "''other''" ?E
         "example_request [''userid:42'']", THEN conjunct1, rule_format, OF n]
  note second = IsAllowed_audit_records [of example_doorman "''svc1''" ?E ?req
         literal_match unconditional, THEN conjunct2, rule_format,
         of "published config_svc1" ?lad, OF conjI [OF example_svc1 conjI [OF l ne]]]
  have len1: "length (fst (snd (IsAllowed ?E example_doorman ''other''
                 (example_request [''userid:42''])))) = 1"
    using first by simp
  have len2: "length (fst (snd (IsAllowed ?E example_doorman ''svc1'' ?req))) = 2"
    using second [THEN conjunct2, THEN conjunct1] one t by simp
  have recs: "fst (snd (IsAllowed ?E example_doorman ''svc1'' ?req))
     = [AuditEntry False
          \<lparr>ladon_Request.Resource = ''doc:1'', Action = ''read'', Subject = ''userid:99'',
           Context = Map.empty\<rparr> [],
        AuditEntry True
          \<lparr>ladon_Request.Resource = ''doc:1'', Action = ''read'', Subject = ''userid:42'',
           Context = Map.empty\<rparr> [policy_allow]]"
    using second [THEN conjunct2, THEN conjunct2]
    by (simp add: t a d99 d42) (simp add: r0)
  from n example_svc1 l ne one t len1 len2 recs show ?thesis by simp
qed

text \<open>
  For a configured audience and a request without principals no record at all is
  written, and for a request with two principals that are both denied two records are
  written: not one record for each call.
\<close>

theorem IsAllowed_one_record_counterexample:
  "fst (snd (IsAllowed (ladon_IsAllowed literal_match unconditional) example_doorman ''svc1''
               (example_request []))) = []
 \<and> fst (snd (IsAllowed (ladon_IsAllowed literal_match unconditional) example_doorman ''svc1''
               (example_request [''userid:99'', ''userid:1''])))
     = [AuditEntry False
           \<lparr>ladon_Request.Resource = ''doc:1'', Action = ''read'', Subject = ''userid:99'',
            Context = Map.empty\<rparr> [],
        AuditEntry False
           \<lparr>ladon_Request.Resource = ''doc:1'', Action = ''read'', Subject = ''userid:1'',
            Context = Map.empty\<rparr> []]"
  by (simp add: IsAllowed_def example_doorman_def example_request_def published_def
        config_svc1_def ladon_IsAllowed_def selected_def Let_def logRequest_def
        literal_match_def unconditional_def policy_allow_def)

text \<open>
  C10. For a configured audience and a request whose list of principals is empty,
  \<open>IsAllowed\<close> returns false whatever the engine, the policies, the resource, the action
  and the context are; the engine is not asked (no record is written) and the doorman is
  unchanged.
\<close>

theorem IsAllowed_no_principals:
  assumes "configs doorman audience = Some c" and "Principals request = []"
  shows "IsAllowed E doorman audience request = (Inr False, [], doorman)"
  using assms by (simp add: IsAllowed_def Let_def)

theorem IsAllowed_no_principals_witness:
  "configs example_doorman ''svc2'' = Some (published config_svc2)
 \<and> Principals (example_request []) = []
 \<and> IsAllowed (ladon_IsAllowed literal_match unconditional) example_doorman ''svc2''
     (example_request []) = (Inr False, [], example_doorman)"
proof -
  have e: "Principals (example_request []) = []"
    by (simp add: example_request_def)
  from IsAllowed_no_principals [OF example_svc2 e,
         of "ladon_IsAllowed literal_match unconditional"] example_svc2 e
  show ?thesis by simp
qed

section \<open>Properties of the tag expansion\<close>

lemma match_principals_eq:
  "match_principals tag member principals result
     = result @ [''tag:'' @ tag. p \<leftarrow> principals, p = member]"
  by (induction principals arbitrary: result) auto

lemma match_members_eq:
  "match_members tag members principals result
     = result @ [''tag:'' @ tag. m \<leftarrow> members, p \<leftarrow> principals, p = m]"
  by (induction members arbitrary: result) (auto simp: match_principals_eq)

lemma match_tags_eq:
  "set order \<subseteq> dom tags \<Longrightarrow>
   match_tags tags order principals result
     = result @ [''tag:'' @ t. t \<leftarrow> order, m \<leftarrow> the (tags t), p \<leftarrow> principals, p = m]"
  by (induction order arbitrary: result) (auto simp: match_members_eq)

text \<open>
  C7, as the code has it. For a configured audience, \<open>ExpandPrincipals\<close> returns the
  input principals followed by one \<open>tag:<name>\<close> for every pair of a member of a tag
  and an input principal equal to it, without removing repetitions: the tags in the
  order in which the runtime visits the map of tags (any order of its keys), within a
  tag the members in their order, within a member the input principals in their order.
  For an audience that the registry does not hold it returns the input.
\<close>

theorem ExpandPrincipals_appends:
  "(configs doorman audience = None \<longrightarrow>
      ExpandPrincipals order doorman audience principals = principals)
 \<and> (\<forall>c. configs doorman audience = Some c \<and> range_order (Tags c) order \<longrightarrow>
      ExpandPrincipals order doorman audience principals
        = principals @
          [''tag:'' @ t. t \<leftarrow> order, m \<leftarrow> the (Tags c t), p \<leftarrow> principals, p = m])"
  by (auto simp: ExpandPrincipals_def range_order_def match_tags_eq)

theorem ExpandPrincipals_appends_witness:
  "configs example_doorman ''other'' = None
 \<and> ExpandPrincipals [] example_doorman ''other'' [''userid:42''] = [''userid:42'']
 \<and> range_order (Tags (published config_svc1)) [''admins'']
 \<and> ExpandPrincipals [''admins''] example_doorman ''svc1'' [''userid:42'', ''userid:42'']
     = [''userid:42'', ''userid:42'', ''tag:admins'', ''tag:admins'']"
proof -
  have n: "configs example_doorman ''other'' = None"
    by (simp add: example_doorman_def)
  have r: "range_order (Tags (published config_svc1)) [''admins'']"
    by (simp add: range_order_def published_def config_svc1_def)
  have t: "Tags (published config_svc1) ''admins'' = Some [''userid:42'']"
    by (simp add: published_def config_svc1_def)
  from ExpandPrincipals_appends [of example_doorman "''other''" "[]" "[''userid:42'']"]
       ExpandPrincipals_appends [of example_doorman "''svc1''" "[''admins'']"
         "[''userid:42'', ''userid:42'']"]
       n r t example_svc1
  show ?thesis by simp
qed

text \<open>
  The configuration of audience \<open>svc2\<close> declares tag \<open>a\<close> before tag \<open>b\<close>, both with
  member \<open>p\<close>. Visiting the map in the order \<open>b\<close>, \<open>a\<close> is a run the runtime may take, and
  it appends \<open>tag:b\<close> before \<open>tag:a\<close>.
\<close>

theorem ExpandPrincipals_order_counterexample:
  "range_order (Tags (published config_svc2)) [''b'', ''a'']
 \<and> ExpandPrincipals [''b'', ''a''] example_doorman ''svc2'' [''p'']
     = [''p'', ''tag:b'', ''tag:a'']
 \<and> ExpandPrincipals [''b'', ''a''] example_doorman ''svc2'' [''p'']
     \<noteq> [''p'', ''tag:a'', ''tag:b'']"
  by (auto simp: range_order_def ExpandPrincipals_def example_doorman_def published_def
        config_svc2_def)

end
